theory Spec2Isabelle
  imports Complex_Main "HOL-Library.Sublist" "HOL-Library.AList" "HOL-Library.Monad_Syntax"
begin

section \<open>Python strings\<close>

text \<open>
  A Python \<open>str\<close> is modelled as a \<open>string\<close>, one \<open>char\<close> per code point, so the
  alphabet of the model is the code points 0 to 255. The character classes below are
  Python's classes restricted to that range.
\<close>

abbreviation newline :: char where
  "newline \<equiv> CHR 0x0A"

definition isspace :: "char \<Rightarrow> bool" where
  \<comment> \<open>\<open>str.isspace\<close>, which is also the class \<open>\s\<close> of \<open>re\<close> on \<open>str\<close> patterns\<close>
  "isspace c \<longleftrightarrow>
     c \<in> {CHR 0x09, CHR 0x0A, CHR 0x0B, CHR 0x0C, CHR 0x0D, CHR 0x1C, CHR 0x1D,
          CHR 0x1E, CHR 0x1F, CHR 0x20, CHR 0x85, CHR 0xA0}"

definition isdigit :: "char \<Rightarrow> bool" where
  \<comment> \<open>the class \<open>\d\<close>: the decimal digits\<close>
  "isdigit c \<longleftrightarrow> (48::nat) \<le> of_char c \<and> of_char c \<le> (57::nat)"

definition isword :: "char \<Rightarrow> bool" where
  \<comment> \<open>the class \<open>\w\<close>: \<open>str.isalnum\<close> or the underscore\<close>
  "isword c \<longleftrightarrow>
     (let n = (of_char c :: nat) in
        (48 \<le> n \<and> n \<le> 57) \<or> (65 \<le> n \<and> n \<le> 90) \<or> (97 \<le> n \<and> n \<le> 122) \<or> n = 95 \<or>
        n \<in> {170, 178, 179, 181, 185, 186, 188, 189, 190} \<or>
        (192 \<le> n \<and> n \<le> 214) \<or> (216 \<le> n \<and> n \<le> 246) \<or> (248 \<le> n \<and> n \<le> 255))"

definition strip :: "string \<Rightarrow> string" where
  \<comment> \<open>\<open>s.strip()\<close>\<close>
  "strip s = rev (dropWhile isspace (rev (dropWhile isspace s)))"

definition upper_char :: "char \<Rightarrow> string" where
  \<comment> \<open>\<open>str.upper\<close> on one character. The upper-case forms of U+00B5 and U+00FF lie
      outside the alphabet of the model; the two characters are left as they are.\<close>
  "upper_char c =
     (let n = (of_char c :: nat) in
        if 97 \<le> n \<and> n \<le> 122 then [char_of (n - 32)]
        else if n = 223 then ''SS''
        else if 224 \<le> n \<and> n \<le> 254 \<and> n \<noteq> 247 then [char_of (n - 32)]
        else [c])"

definition upper :: "string \<Rightarrow> string" where
  "upper s = concat (map upper_char s)"

definition digit_char :: "nat \<Rightarrow> char" where
  "digit_char d = char_of (48 + d)"

fun str_nat :: "nat \<Rightarrow> string" where
  \<comment> \<open>\<open>str(n)\<close> for a length\<close>
  "str_nat n = (if n < 10 then [digit_char n] else str_nat (n div 10) @ [digit_char (n mod 10)])"

declare str_nat.simps [simp del]

definition int_str :: "string \<Rightarrow> nat" where
  \<comment> \<open>\<open>int(s)\<close> for a string of decimal digits\<close>
  "int_str s = foldl (\<lambda>a c. 10 * a + (of_char c - 48)) 0 s"

function split_str :: "string \<Rightarrow> string \<Rightarrow> string list" where
  \<comment> \<open>\<open>s.split(sep)\<close> for a non-empty separator\<close>
  "split_str sep [] = [[]]"
| "split_str sep (c # cs) =
     (if sep \<noteq> [] \<and> prefix sep (c # cs)
      then [] # split_str sep (drop (length sep) (c # cs))
      else (case split_str sep cs of [] \<Rightarrow> [[c]] | p # ps \<Rightarrow> (c # p) # ps))"
  by pat_completeness auto
termination
  by (relation "measure (\<lambda>(sep, s). length s)") (auto simp: neq_Nil_conv)

definition split_lines :: "string \<Rightarrow> string list" where
  \<comment> \<open>\<open>s.split('\n')\<close>\<close>
  "split_lines s = split_str [newline] s"

definition split_first :: "char \<Rightarrow> string \<Rightarrow> string \<times> string" where
  \<comment> \<open>\<open>line.split(c, 1)\<close> on a line that contains \<open>c\<close>\<close>
  "split_first c s = (takeWhile (\<lambda>x. x \<noteq> c) s, drop 1 (dropWhile (\<lambda>x. x \<noteq> c) s))"

definition py_words :: "string \<Rightarrow> string list" where
  \<comment> \<open>\<open>s.split()\<close>: the maximal runs of non-whitespace\<close>
  "py_words s = filter (\<lambda>w. w \<noteq> []) (foldr (\<lambda>c ws. if isspace c then [] # ws
        else (case ws of [] \<Rightarrow> [[c]] | w # ws' \<Rightarrow> (c # w) # ws')) s [[]])"

definition join :: "string \<Rightarrow> string list \<Rightarrow> string" where
  \<comment> \<open>\<open>sep.join(xs)\<close>\<close>
  "join sep xs = (case xs of [] \<Rightarrow> [] | y # ys \<Rightarrow> y @ concat (map (\<lambda>z. sep @ z) ys))"

definition enumerate1 :: "'a list \<Rightarrow> (nat \<times> 'a) list" where
  \<comment> \<open>\<open>enumerate(xs, 1)\<close>\<close>
  "enumerate1 xs = zip (map Suc [0 ..< length xs]) xs"

section \<open>The regular expressions of the parser\<close>

fun find_after :: "string \<Rightarrow> string \<Rightarrow> string option" where
  \<comment> \<open>the text after the leftmost occurrence of a literal\<close>
  "find_after l [] = (if l = [] then Some [] else None)"
| "find_after l (c # cs) =
     (if prefix l (c # cs) then Some (drop (length l) (c # cs)) else find_after l cs)"

fun search_line :: "string \<Rightarrow> string \<Rightarrow> string option" where
  \<comment> \<open>\<open>re.search(label + '(.+)', s)\<close>, group 1: the leftmost occurrence of the label that
      is followed by a character other than a newline, and the rest of that line\<close>
  "search_line l [] = None"
| "search_line l (c # cs) =
     (let r = drop (length l) (c # cs) in
      if prefix l (c # cs) \<and> r \<noteq> [] \<and> hd r \<noteq> newline
      then Some (takeWhile (\<lambda>x. x \<noteq> newline) r)
      else search_line l cs)"

definition at_end :: "string \<Rightarrow> bool" where
  \<comment> \<open>\<open>$\<close> without \<open>re.MULTILINE\<close>: the end of the text, or just before a last newline\<close>
  "at_end s \<longleftrightarrow> s = [] \<or> s = [newline]"

definition lookahead :: "string list \<Rightarrow> string \<Rightarrow> bool" where
  \<comment> \<open>\<open>(?=t1|t2|...|$)\<close>\<close>
  "lookahead ts s \<longleftrightarrow> list_ex (\<lambda>t. prefix t s) ts \<or> at_end s"

fun lazy_until :: "(string \<Rightarrow> bool) \<Rightarrow> string \<Rightarrow> string" where
  \<comment> \<open>\<open>(.*?)\<close> with \<open>re.DOTALL\<close> before a lookahead: the shortest prefix after which
      the lookahead holds\<close>
  "lazy_until stop [] = []"
| "lazy_until stop (c # cs) = (if stop (c # cs) then [] else c # lazy_until stop cs)"

definition search_block :: "string \<Rightarrow> string list \<Rightarrow> string \<Rightarrow> string option" where
  \<comment> \<open>\<open>re.search(label + '(.*?)(?=t1|...|$)', s, re.DOTALL)\<close>, group 1\<close>
  "search_block l ts s = map_option (lazy_until (lookahead ts)) (find_after l s)"

definition lit :: "string \<Rightarrow> string \<Rightarrow> string option" where
  "lit l s = (if prefix l s then Some (drop (length l) s) else None)"

definition digits1 :: "string \<Rightarrow> (nat \<times> string) option" where
  \<comment> \<open>\<open>(\d+)\<close> before a literal that starts with a non-digit: the longest run of digits\<close>
  "digits1 s = (if takeWhile isdigit s = [] then None
                else Some (int_str (takeWhile isdigit s), dropWhile isdigit s))"

definition match_stats :: "string \<Rightarrow> (nat \<times> nat \<times> nat \<times> nat \<times> nat) option" where
  "match_stats s = do {
     s1 \<leftarrow> lit ''FULL TEXT LENGTH: '' s;
     (a, s2) \<leftarrow> digits1 s1;
     s3 \<leftarrow> lit ('' characters'' @ [newline] @ ''TOTAL HEADINGS: '') s2;
     (b, s4) \<leftarrow> digits1 s3;
     s5 \<leftarrow> lit ([newline] @ ''TOTAL PARAGRAPHS: '') s4;
     (c, s6) \<leftarrow> digits1 s5;
     s7 \<leftarrow> lit ([newline] @ ''TOTAL LINKS: '') s6;
     (d, s8) \<leftarrow> digits1 s7;
     s9 \<leftarrow> lit ([newline] @ ''TOTAL IMAGES: '') s8;
     (e, s10) \<leftarrow> digits1 s9;
     Some (a, b, c, d, e)
   }"

fun search_stats :: "string \<Rightarrow> (nat \<times> nat \<times> nat \<times> nat \<times> nat) option" where
  \<comment> \<open>\<open>re.search\<close> of the five-line pattern: the leftmost position where it matches\<close>
  "search_stats [] = None"
| "search_stats (c # cs) =
     (case match_stats (c # cs) of Some r \<Rightarrow> Some r | None \<Rightarrow> search_stats cs)"

definition strip_enum :: "string \<Rightarrow> string" where
  \<comment> \<open>\<open>re.sub(r'^\d+\.\s*', '', s)\<close>\<close>
  "strip_enum s =
     (let r = dropWhile isdigit s in
      if takeWhile isdigit s \<noteq> [] \<and> r \<noteq> [] \<and> hd r = CHR ''.''
      then dropWhile isspace (tl r) else s)"

function collapse_ws :: "string \<Rightarrow> string" where
  \<comment> \<open>\<open>re.sub(r'\s+', ' ', s)\<close>\<close>
  "collapse_ws [] = []"
| "collapse_ws (c # cs) =
     (if isspace c then CHR '' '' # collapse_ws (dropWhile isspace cs) else c # collapse_ws cs)"
  by pat_completeness auto
termination
  by (relation "measure length") (auto simp: length_dropWhile_le less_Suc_eq_le)

definition allowed :: "char \<Rightarrow> bool" where
  \<comment> \<open>the complement of the class \<open>[^\w\s\-.,!?;:()\[\]{}"\']\<close>\<close>
  "allowed c \<longleftrightarrow> isword c \<or> isspace c \<or>
     c \<in> {CHR ''-'', CHR ''.'', CHR '','', CHR ''!'', CHR ''?'', CHR '';'', CHR '':'', CHR ''('',
          CHR '')'', CHR ''['', CHR '']'', CHR ''{'', CHR ''}'', CHR 0x22, CHR 0x27}"

section \<open>The record of a page\<close>

record heading =
  level :: string
  heading_text :: string

record link =
  link_text :: string
  href :: string

record image =
  src :: string
  alt :: string
  image_title :: string

text \<open>
  The keys that the three dictionaries of the pipeline share. A dictionary from strings
  to strings or to integers is an association list in insertion order with distinct keys.
  \<open>abstract\<close> is \<open>None\<close> where Python has \<open>None\<close>.
\<close>

record content =
  url :: string
  title :: string
  abstract :: "string option"
  headings :: "heading list"
  paragraphs :: "string list"
  links :: "link list"
  meta_tags :: "(string \<times> string) list"

text \<open>The dictionary \<open>data\<close> that \<open>scrape_website\<close> builds from the page.\<close>

record data = content +
  images :: "image list"
  full_text :: string

text \<open>The dictionary \<open>parsed_data\<close> of \<open>parse_scraped_content\<close>.\<close>

record parsed_data = content +
  statistics :: "(string \<times> nat) list"

record processed_stats =
  clean_headings_count :: nat
  clean_paragraphs_count :: nat
  clean_links_count :: nat
  average_paragraph_length :: rat
  total_words :: nat
  processing_timestamp :: string

text \<open>The dictionary \<open>processed_data\<close> of \<open>preprocess_content\<close>.\<close>

record processed_data = parsed_data +
  processed_stats :: processed_stats

section \<open>The text dump written by \<open>scrape_website\<close>\<close>

definition banner :: string where
  "banner = ''WEBSITE SCRAPED DATA'' @ [newline] @ replicate 50 CHR ''='' @ [newline, newline]"

definition truthy :: "string option \<Rightarrow> bool" where
  \<comment> \<open>the truth value of \<open>None\<close> or of a \<open>str\<close>\<close>
  "truthy a \<longleftrightarrow> a \<noteq> None \<and> a \<noteq> Some []"

definition abstract_block :: "string option \<Rightarrow> string" where
  "abstract_block a =
     (if truthy a then ''ABSTRACT:'' @ [newline] @ the a @ [newline, newline] else [])"

definition heading_entry :: "heading \<Rightarrow> string" where
  "heading_entry h = upper (level h) @ '': '' @ heading_text h @ [newline]"

definition headings_block :: "heading list \<Rightarrow> string" where
  "headings_block hs =
     (if hs \<noteq> [] then ''HEADINGS:'' @ [newline] @ concat (map heading_entry hs) @ [newline]
      else [])"

definition paragraph_entry :: "nat \<times> string \<Rightarrow> string" where
  "paragraph_entry = (\<lambda>(i, para). str_nat i @ ''. '' @ para @ [newline, newline])"

definition paragraph_entries :: "string list \<Rightarrow> string list" where
  \<comment> \<open>one element per round of the loop over \<open>enumerate(data['paragraphs'][:20], 1)\<close>\<close>
  "paragraph_entries ps = map paragraph_entry (enumerate1 (take 20 ps))"

definition paragraphs_block :: "string list \<Rightarrow> string" where
  "paragraphs_block ps =
     (if ps \<noteq> [] then ''PARAGRAPHS:'' @ [newline] @ concat (paragraph_entries ps) else [])"

definition link_entry :: "nat \<times> link \<Rightarrow> string" where
  "link_entry = (\<lambda>(i, l). str_nat i @ ''. '' @ link_text l @ '' -> '' @ href l @ [newline])"

definition link_entries :: "link list \<Rightarrow> string list" where
  \<comment> \<open>one element per round of the loop over \<open>enumerate(data['links'][:20], 1)\<close>\<close>
  "link_entries ls = map link_entry (enumerate1 (take 20 ls))"

definition links_block :: "link list \<Rightarrow> string" where
  "links_block ls =
     (if ls \<noteq> [] then ''LINKS (first 20):'' @ [newline] @ concat (link_entries ls) @ [newline]
      else [])"

definition meta_entry :: "string \<times> string \<Rightarrow> string" where
  "meta_entry = (\<lambda>(name, content). name @ '': '' @ content @ [newline])"

definition meta_block :: "(string \<times> string) list \<Rightarrow> string" where
  "meta_block ms =
     (if ms \<noteq> [] then ''META TAGS:'' @ [newline] @ concat (map meta_entry ms) @ [newline]
      else [])"

definition stats_block :: "data \<Rightarrow> string" where
  "stats_block d =
     ''FULL TEXT LENGTH: '' @ str_nat (length (full_text d)) @ '' characters'' @ [newline] @
     ''TOTAL HEADINGS: '' @ str_nat (length (headings d)) @ [newline] @
     ''TOTAL PARAGRAPHS: '' @ str_nat (length (paragraphs d)) @ [newline] @
     ''TOTAL LINKS: '' @ str_nat (length (links d)) @ [newline] @
     ''TOTAL IMAGES: '' @ str_nat (length (images d)) @ [newline]"

definition txt_dump :: "data \<Rightarrow> string" where
  \<comment> \<open>what \<open>scrape_website\<close> writes to \<open>txt_filename\<close>, one part per \<open>f.write\<close> group\<close>
  "txt_dump d =
     banner @
     ''URL: '' @ url d @ [newline] @
     ''Title: '' @ title d @ [newline, newline] @
     abstract_block (abstract d) @
     headings_block (headings d) @
     paragraphs_block (paragraphs d) @
     links_block (links d) @
     meta_block (meta_tags d) @
     stats_block d"

section \<open>\<open>parse_scraped_content\<close>\<close>

definition contains :: "string \<Rightarrow> string \<Rightarrow> bool" where
  \<comment> \<open>\<open>sub in s\<close>\<close>
  "contains sub s = sublist sub s"

definition heading_of_line :: "string \<Rightarrow> heading option" where
  "heading_of_line line =
     (if CHR '':'' \<in> set line
      then (let (lv, tx) = split_first CHR '':'' line
            in Some \<lparr>level = strip lv, heading_text = strip tx\<rparr>)
      else None)"

definition parse_headings :: "string \<Rightarrow> heading list" where
  "parse_headings block = List.map_filter heading_of_line (split_lines (strip block))"

definition paragraph_of_line :: "string \<Rightarrow> string option" where
  "paragraph_of_line line =
     (if strip line \<noteq> [] \<and> \<not> (prefix ''FULL TEXT'' line \<or> prefix ''TOTAL'' line)
      then (let clean_para = strip_enum (strip line)
            in if clean_para \<noteq> [] then Some clean_para else None)
      else None)"

definition parse_paragraphs :: "string \<Rightarrow> string list" where
  "parse_paragraphs block = List.map_filter paragraph_of_line (split_lines (strip block))"

definition link_of_line :: "string \<Rightarrow> link option" where
  "link_of_line line =
     (if contains ''->'' line
      then (let parts = split_str ''->'' line
            in if length parts = 2
               then Some \<lparr>link_text = strip_enum (strip (parts ! 0)), href = strip (parts ! 1)\<rparr>
               else None)
      else None)"

definition parse_links :: "string \<Rightarrow> link list" where
  "parse_links block = List.map_filter link_of_line (split_lines (strip block))"

definition meta_step :: "(string \<times> string) list \<times> string \<Rightarrow> string \<Rightarrow> (string \<times> string) list \<times> string" where
  \<comment> \<open>one round of the loop over the lines of the meta-tags block. The loop assigns the
      part after the colon to \<open>content\<close>, the variable that holds the text being parsed.\<close>
  "meta_step = (\<lambda>(meta, content) line.
     if CHR '':'' \<in> set line
     then (let (name, content') = split_first CHR '':'' line
           in (AList.update (strip name) (strip content') meta, content'))
     else (meta, content))"

definition parse_meta :: "string \<Rightarrow> string \<Rightarrow> (string \<times> string) list \<times> string" where
  \<comment> \<open>the meta tags of the block, and the value of \<open>content\<close> after the loop\<close>
  "parse_meta block content = foldl meta_step ([], content) (split_lines (strip block))"

definition stats_dict :: "nat \<times> nat \<times> nat \<times> nat \<times> nat \<Rightarrow> (string \<times> nat) list" where
  "stats_dict = (\<lambda>(a, b, c, d, e).
     [(''full_text_length'', a), (''total_headings'', b), (''total_paragraphs'', c),
      (''total_links'', d), (''total_images'', e)])"

definition parse_scraped_content :: "string \<Rightarrow> parsed_data" where
  "parse_scraped_content content =
     (let url_match = search_line ''URL: '' content;
          title_match = search_line ''Title: '' content;
          abstract_match =
            search_block (''ABSTRACT:'' @ [newline]) [[newline, newline], ''HEADINGS:''] content;
          headings_match =
            search_block (''HEADINGS:'' @ [newline]) [[newline, newline], ''PARAGRAPHS:''] content;
          paragraphs_match =
            search_block (''PARAGRAPHS:'' @ [newline])
              [[newline, newline], ''LINKS:'', ''META TAGS:''] content;
          links_match =
            search_block (''LINKS (first 20):'' @ [newline])
              [[newline, newline], ''META TAGS:''] content;
          meta_match =
            search_block (''META TAGS:'' @ [newline]) [[newline, newline], ''FULL TEXT''] content;
          (meta, content') =
            (case meta_match of None \<Rightarrow> ([], content) | Some b \<Rightarrow> parse_meta b content);
          stats_match = search_stats content'
      in \<lparr>url = (case url_match of None \<Rightarrow> [] | Some g \<Rightarrow> strip g),
          title = (case title_match of None \<Rightarrow> [] | Some g \<Rightarrow> strip g),
          abstract = (case abstract_match of None \<Rightarrow> Some [] | Some g \<Rightarrow> Some (strip g)),
          headings = (case headings_match of None \<Rightarrow> [] | Some b \<Rightarrow> parse_headings b),
          paragraphs = (case paragraphs_match of None \<Rightarrow> [] | Some b \<Rightarrow> parse_paragraphs b),
          links = (case links_match of None \<Rightarrow> [] | Some b \<Rightarrow> parse_links b),
          meta_tags = meta,
          statistics = (case stats_match of None \<Rightarrow> [] | Some r \<Rightarrow> stats_dict r)\<rparr>)"

section \<open>\<open>clean_text\<close> and \<open>preprocess_content\<close>\<close>

definition clean_text :: "string option \<Rightarrow> string" where
  "clean_text text =
     (if \<not> truthy text then []
      else strip (collapse_ws (filter allowed (collapse_ws (the text)))))"

definition clean_heading :: "heading \<Rightarrow> heading option" where
  "clean_heading h =
     (let cleaned_text = clean_text (Some (heading_text h))
      in if cleaned_text \<noteq> [] then Some \<lparr>level = level h, heading_text = cleaned_text\<rparr>
         else None)"

fun clean_paragraphs :: "string list \<Rightarrow> string list \<Rightarrow> string list" where
  \<comment> \<open>the loop over the paragraphs; the first argument is the list built so far, whose
      elements are those of \<open>seen_paragraphs\<close>\<close>
  "clean_paragraphs acc [] = acc"
| "clean_paragraphs acc (para # ps) =
     (let cleaned_para = clean_text (Some para)
      in if cleaned_para \<noteq> [] \<and> length cleaned_para > 10 \<and> cleaned_para \<notin> set acc
         then clean_paragraphs (acc @ [cleaned_para]) ps
         else clean_paragraphs acc ps)"

definition clean_link :: "link \<Rightarrow> link option" where
  "clean_link l =
     (let cleaned_text = clean_text (Some (link_text l))
      in if cleaned_text \<noteq> [] then Some \<lparr>link_text = cleaned_text, href = href l\<rparr> else None)"

definition preprocess_content :: "string \<Rightarrow> 'a parsed_data_scheme \<Rightarrow> processed_data" where
  \<comment> \<open>The first argument is the reading of the clock, \<open>str(datetime.now())\<close>. The quotient
      of two integers that Python computes as a float is the rational number.\<close>
  "preprocess_content now parsed =
     (let hs = List.map_filter clean_heading (headings parsed);
          ps = clean_paragraphs [] (paragraphs parsed);
          ls = List.map_filter clean_link (links parsed)
      in \<lparr>url = url parsed,
          title = clean_text (Some (title parsed)),
          abstract = Some (clean_text (abstract parsed)),
          headings = hs,
          paragraphs = ps,
          links = ls,
          meta_tags = meta_tags parsed,
          statistics = (if statistics parsed \<noteq> [] then statistics parsed else []),
          processed_stats =
            \<lparr>clean_headings_count = length hs,
             clean_paragraphs_count = length ps,
             clean_links_count = length ls,
             average_paragraph_length =
               of_nat (sum_list (map length ps)) / of_nat (max (length ps) 1),
             total_words = length (py_words (join '' '' ps)),
             processing_timestamp = now\<rparr>\<rparr>)"

section \<open>Text files\<close>

text \<open>
  Both programs open their files in text mode with the default \<open>newline\<close> argument.
  Writing replaces every line feed by the line separator of the platform, which is a
  line feed or a carriage return and a line feed; reading replaces a carriage return and
  a line feed, and a carriage return alone, by a line feed. With the alphabet of the
  model, encoding to UTF-8 and decoding again changes nothing.
\<close>

abbreviation carriage_return :: char where
  "carriage_return \<equiv> CHR 0x0D"

definition write_text :: "string \<Rightarrow> string \<Rightarrow> string" where
  \<comment> \<open>the characters stored by \<open>f.write(s)\<close>, where \<open>linesep\<close> is \<open>os.linesep\<close>\<close>
  "write_text linesep s = concat (map (\<lambda>c. if c = newline then linesep else [c]) s)"

fun read_text :: "string \<Rightarrow> string" where
  \<comment> \<open>what \<open>f.read()\<close> returns for the stored characters\<close>
  "read_text [] = []"
| "read_text [c] = [if c = carriage_return then newline else c]"
| "read_text (c # d # cs) =
     (if c = carriage_return \<and> d = newline then newline # read_text cs
      else (if c = carriage_return then newline else c) # read_text (d # cs))"

section \<open>Batches\<close>

datatype error = WebDriverException | OSError

datatype written = Json data | Txt string

type_synonym files = "(string \<times> written) list"

text \<open>
  The browser is a function \<open>fetch\<close> from a URL to the dictionary extracted from the
  rendered page, or to the exception raised on the way. \<open>domain\<close> is the file-name stem
  computed from the URL. The files written so far are threaded through.
\<close>

definition write_files :: "(string \<Rightarrow> string) \<Rightarrow> string \<Rightarrow> data \<Rightarrow> files \<Rightarrow> files" where
  "write_files domain u d fs =
     fs @ [(''data/'' @ domain u @ ''_scraped_data.json'', Json d),
           (''data/'' @ domain u @ ''_scraped_data.txt'', Txt (txt_dump d))]"

definition scrape_website ::
  "(string \<Rightarrow> error + data) \<Rightarrow> (string \<Rightarrow> string) \<Rightarrow> string \<Rightarrow> files \<Rightarrow> (error + data) \<times> files" where
  \<comment> \<open>\<open>simple_web_scraper.py\<close>: no exception is caught\<close>
  "scrape_website fetch domain u fs =
     (case fetch u of Inl e \<Rightarrow> (Inl e, fs) | Inr d \<Rightarrow> (Inr d, write_files domain u d fs))"

fun scrape_loop ::
  "(string \<Rightarrow> error + data) \<Rightarrow> (string \<Rightarrow> string) \<Rightarrow> data list \<times> nat \<times> nat \<Rightarrow> string list \<Rightarrow> files
     \<Rightarrow> (error + data list \<times> nat \<times> nat) \<times> files" where
  \<comment> \<open>the loop of \<open>scrape_multiple_websites\<close> over \<open>results\<close>, \<open>successful\<close> and
      \<open>failed\<close>. The dictionary that \<open>scrape_website\<close> returns has nine keys and is true
      as a condition, so the branch that counts a failure is never taken.\<close>
  "scrape_loop fetch domain acc [] fs = (Inr acc, fs)"
| "scrape_loop fetch domain (results, successful, failed) (u # us) fs =
     (case scrape_website fetch domain u fs of
        (Inl e, fs') \<Rightarrow> (Inl e, fs')
      | (Inr result, fs') \<Rightarrow>
          scrape_loop fetch domain (results @ [result], successful + 1, failed) us fs')"

definition scrape_multiple_websites ::
  "(string \<Rightarrow> error + data) \<Rightarrow> (string \<Rightarrow> string) \<Rightarrow> string list \<Rightarrow> files \<Rightarrow> (error + data list) \<times> files" where
  "scrape_multiple_websites fetch domain us fs =
     (case scrape_loop fetch domain ([], 0, 0) us fs of
        (Inl e, fs') \<Rightarrow> (Inl e, fs')
      | (Inr (results, successful, failed), fs') \<Rightarrow> (Inr results, fs'))"

definition scrape_website_headless ::
  "(string \<Rightarrow> error + data) \<Rightarrow> (string \<Rightarrow> string) \<Rightarrow> string \<Rightarrow> files \<Rightarrow> data option \<times> files" where
  \<comment> \<open>\<open>simple_web_scraper_headless.py\<close>: the body is inside \<open>try\<close>, and \<open>except\<close>
      returns \<open>None\<close>\<close>
  "scrape_website_headless fetch domain u fs =
     (case fetch u of Inl e \<Rightarrow> (None, fs) | Inr d \<Rightarrow> (Some d, write_files domain u d fs))"

fun scrape_loop_headless ::
  "(string \<Rightarrow> error + data) \<Rightarrow> (string \<Rightarrow> string) \<Rightarrow> data list \<times> nat \<times> nat \<Rightarrow> string list \<Rightarrow> files
     \<Rightarrow> (data list \<times> nat \<times> nat) \<times> files" where
  "scrape_loop_headless fetch domain acc [] fs = (acc, fs)"
| "scrape_loop_headless fetch domain (results, successful, failed) (u # us) fs =
     (case scrape_website_headless fetch domain u fs of
        (None, fs') \<Rightarrow> scrape_loop_headless fetch domain (results, successful, failed + 1) us fs'
      | (Some result, fs') \<Rightarrow>
          scrape_loop_headless fetch domain (results @ [result], successful + 1, failed) us fs')"

definition read_txt_file :: "(string \<Rightarrow> error + string) \<Rightarrow> string \<Rightarrow> string" where
  \<comment> \<open>\<open>read\<close> is \<open>open(file_path, 'r')\<close> followed by \<open>f.read()\<close>: the text of the file as a
      text-mode handle returns it, or the exception raised. An exception is logged and
      the empty string returned.\<close>
  "read_txt_file read p = (case read p of Inl e \<Rightarrow> [] | Inr content \<Rightarrow> content)"

fun process_loop ::
  "(string \<Rightarrow> error + string) \<Rightarrow> (string \<Rightarrow> string) \<Rightarrow> nat \<times> nat \<times> (string \<times> processed_data) list
     \<Rightarrow> string list \<Rightarrow> nat \<times> nat \<times> (string \<times> processed_data) list" where
  \<comment> \<open>the loop of \<open>process_all_files\<close> over \<open>processed_count\<close>, \<open>failed_count\<close> and
      the records saved; \<open>clock\<close> gives the time at which a file is processed\<close>
  "process_loop read clock acc [] = acc"
| "process_loop read clock (processed_count, failed_count, saved) (p # ps) =
     (let content = read_txt_file read p
      in if content = [] then process_loop read clock (processed_count, failed_count + 1, saved) ps
         else process_loop read clock
                (processed_count + 1, failed_count,
                 saved @ [(p, preprocess_content (clock p) (parse_scraped_content content))]) ps)"

definition process_all_files ::
  "(string \<Rightarrow> error + string) \<Rightarrow> (string \<Rightarrow> string) \<Rightarrow> string list
     \<Rightarrow> nat \<times> nat \<times> (string \<times> processed_data) list" where
  "process_all_files read clock txt_files = process_loop read clock (0, 0, []) txt_files"

section \<open>Occurrences of a label\<close>

text \<open>
  At position \<open>k\<close> of the text \<open>c\<close> the label \<open>l\<close> begins, and the character after the
  label exists and is not a newline: the label is followed by something on its line.
\<close>

definition followed :: "string \<Rightarrow> string \<Rightarrow> nat \<Rightarrow> bool" where
  "followed l c k \<longleftrightarrow>
     prefix l (drop k c) \<and> k + length l < length c \<and> c ! (k + length l) \<noteq> newline"

section \<open>Pages that survive the round trip\<close>

text \<open>The tag names that \<open>get_headings\<close> looks for.\<close>

definition heading_tags :: "string list" where
  "heading_tags = [''h1'', ''h2'', ''h3'', ''h4'', ''h5'', ''h6'']"

text \<open>The labels and terminators of the text format that a field must not contain.\<close>

definition labels :: "string list" where
  "labels = [''Title: '', ''HEADINGS:'', ''PARAGRAPHS:'', ''LINKS (first 20):'', ''META TAGS:'',
             ''FULL TEXT'']"

definition label_free :: "string \<Rightarrow> bool" where
  "label_free s \<longleftrightarrow> list_all (\<lambda>l. \<not> sublist l s) labels"

text \<open>
  A field that is one line, also after it has been written to a file and read back, and
  has no whitespace at either end.
\<close>

definition single_line :: "string \<Rightarrow> bool" where
  "single_line s \<longleftrightarrow> newline \<notin> set s \<and> carriage_return \<notin> set s \<and> strip s = s"

definition heading_ok :: "heading \<Rightarrow> bool" where
  "heading_ok h \<longleftrightarrow>
     level h \<in> set heading_tags \<and> single_line (heading_text h) \<and> label_free (heading_text h)"

definition link_ok :: "link \<Rightarrow> bool" where
  "link_ok l \<longleftrightarrow>
     single_line (link_text l) \<and> label_free (link_text l) \<and> \<not> sublist ''->'' (link_text l) \<and>
     single_line (href l) \<and> label_free (href l) \<and> \<not> sublist ''->'' (href l)"

text \<open>The field values that \<open>scrape_website\<close> writes into the dump.\<close>

definition written_fields :: "data \<Rightarrow> string list" where
  "written_fields d =
     [url d, title d] @ (if truthy (abstract d) then [the (abstract d)] else []) @
     map heading_text (headings d) @ take 20 (paragraphs d) @
     concat (map (\<lambda>l. [link_text l, href l]) (take 20 (links d))) @
     concat (map (\<lambda>(name, content). [name, content]) (meta_tags d))"

text \<open>
  The pages for which the round trip is stated: \<open>url\<close> and \<open>title\<close> are non-empty; the
  fields that come back (\<open>url\<close>, \<open>title\<close>, heading texts, link texts and targets of the
  first 20 links) are single lines; heading levels are tag names; no field contains a
  label; no link field contains the token \<open>->\<close>; and no field that is written contains
  a carriage return, which a file read in text mode gives back as a line feed.
\<close>

definition roundtrip_ok :: "data \<Rightarrow> bool" where
  "roundtrip_ok d \<longleftrightarrow>
     url d \<noteq> [] \<and> single_line (url d) \<and> label_free (url d) \<and>
     title d \<noteq> [] \<and> single_line (title d) \<and> label_free (title d) \<and>
     (truthy (abstract d) \<longrightarrow> label_free (the (abstract d))) \<and>
     list_all heading_ok (headings d) \<and>
     list_all label_free (take 20 (paragraphs d)) \<and>
     list_all link_ok (take 20 (links d)) \<and>
     list_all (\<lambda>(name, content). label_free name \<and> label_free content) (meta_tags d) \<and>
     list_all (\<lambda>s. carriage_return \<notin> set s) (written_fields d)"

section \<open>Notions used in the proofs\<close>

text \<open>A text in which every whitespace character is a single space between two others.\<close>

fun collapsed :: "string \<Rightarrow> bool" where
  "collapsed [] = True"
| "collapsed [c] = (isspace c \<longrightarrow> c = CHR '' '')"
| "collapsed (c # d # cs) = ((isspace c \<longrightarrow> c = CHR '' '' \<and> \<not> isspace d) \<and> collapsed (d # cs))"

text \<open>\<open>clean_text\<close> on a string.\<close>

definition clean :: "string \<Rightarrow> string" where
  "clean s = strip (collapse_ws (filter allowed (collapse_ws s)))"

text \<open>A paragraph that the loop over the paragraphs keeps as it is.\<close>

definition kept :: "string \<Rightarrow> bool" where
  "kept p \<longleftrightarrow> clean_text (Some p) = p \<and> 10 < length p"


text \<open>A search string with no newline before its last character.\<close>

definition good :: "string \<Rightarrow> bool" where
  "good n \<longleftrightarrow> n \<noteq> [] \<and> newline \<notin> set (butlast n)"

text \<open>\<open>strip\<close> at the right end only.\<close>

definition rstrip :: "string \<Rightarrow> string" where
  "rstrip s = rev (dropWhile isspace (rev s))"





section \<open>Concrete inputs\<close>

definition page25 :: data where
  \<comment> \<open>a page with 25 paragraphs and 30 links\<close>
  "page25 = \<lparr>url = ''http://a.b'', title = ''T'', abstract = None, headings = [],
     paragraphs = replicate 25 ''some text'',
     links = replicate 30 \<lparr>link_text = ''home'', href = ''/''\<rparr>,
     meta_tags = [], images = [], full_text = ''abc''\<rparr>"

definition og_page :: data where
  \<comment> \<open>a page whose only meta tag is \<open><meta property="og:title" content="Home">\<close>\<close>
  "og_page = \<lparr>url = ''http://a.b'', title = ''T'', abstract = None, headings = [],
     paragraphs = [], links = [],
     meta_tags = [(''og:title'', ''Home'')], images = [], full_text = ''abc''\<rparr>"

definition fetch_good_only :: "string \<Rightarrow> error + data" where
  \<comment> \<open>a browser that renders one URL and raises on every other\<close>
  "fetch_good_only u = (if u = ''http://good.example'' then Inr page25 else Inl WebDriverException)"

definition parsed0 :: parsed_data where
  \<comment> \<open>a parsed record with one heading, two paragraphs and one link\<close>
  "parsed0 = \<lparr>url = ''http://a.b'', title = ''A  title'', abstract = Some [],
     headings = [\<lparr>level = ''H1'', heading_text = ''Intro''\<rparr>],
     paragraphs = [''Hello world, this works.'', ''Short''],
     links = [\<lparr>link_text = ''home'', href = ''/''\<rparr>],
     meta_tags = [], statistics = []\<rparr>"

definition two_heading_dump :: string where
  \<comment> \<open>a headings block with a blank line between its two lines\<close>
  "two_heading_dump =
     ''HEADINGS:'' @ [newline] @ ''H1: a'' @ [newline, newline] @ ''H2: b'' @ [newline]"

definition label_ended_dump :: string where
  \<comment> \<open>three blocks without a blank line: two end at the next label, the last one at the
      end of the text\<close>
  "label_ended_dump =
     ''HEADINGS:'' @ [newline] @ ''H1: a'' @ [newline] @ ''PARAGRAPHS:'' @ [newline] @
     ''1. p'' @ [newline] @ ''META TAGS:'' @ [newline] @ ''a: b''"



definition cr_page :: data where
  \<comment> \<open>a page with a carriage return inside its title\<close>
  "cr_page = \<lparr>url = ''http://a.b'', title = ''T'' @ [carriage_return] @ ''U'', abstract = None,
     headings = [], paragraphs = [], links = [], meta_tags = [], images = [], full_text = ''abc''\<rparr>"

section \<open>Truncation in the text dump\<close>

lemma length_enumerate1: "length (enumerate1 xs) = length xs"
  by (simp add: enumerate1_def)

lemma nth_enumerate1: "i < length xs \<Longrightarrow> enumerate1 xs ! i = (Suc i, xs ! i)"
  by (simp add: enumerate1_def)

lemma str_nat_25: "str_nat 25 = ''25''"
  by (simp add: str_nat.simps digit_char_def char_of_eq_iff)

lemma str_nat_30: "str_nat 30 = ''30''"
  by (simp add: str_nat.simps digit_char_def char_of_eq_iff)

text \<open>
  C5. For a page with 25 paragraphs and 30 links the dump has exactly 20 paragraph
  entries and exactly 20 link entries, numbered from 1 to 20 and taken from the first 20
  items in order, and the statistics lines that follow report 25 paragraphs and 30 links.
\<close>

theorem truncation_25_30:
  assumes "length (paragraphs d) = 25" and "length (links d) = 30"
  shows "length (paragraph_entries (paragraphs d)) = 20
       \<and> length (link_entries (links d)) = 20
       \<and> (\<forall>i<20. paragraph_entries (paragraphs d) ! i =
             str_nat (Suc i) @ ''. '' @ paragraphs d ! i @ [newline, newline])
       \<and> (\<forall>i<20. link_entries (links d) ! i =
             str_nat (Suc i) @ ''. '' @ link_text (links d ! i) @ '' -> '' @ href (links d ! i)
               @ [newline])
       \<and> txt_dump d =
           banner @ ''URL: '' @ url d @ [newline] @ ''Title: '' @ title d @ [newline, newline] @
           abstract_block (abstract d) @ headings_block (headings d) @
           ''PARAGRAPHS:'' @ [newline] @ concat (paragraph_entries (paragraphs d)) @
           ''LINKS (first 20):'' @ [newline] @ concat (link_entries (links d)) @ [newline] @
           meta_block (meta_tags d) @
           ''FULL TEXT LENGTH: '' @ str_nat (length (full_text d)) @ '' characters'' @ [newline] @
           ''TOTAL HEADINGS: '' @ str_nat (length (headings d)) @ [newline] @
           ''TOTAL PARAGRAPHS: 25'' @ [newline] @
           ''TOTAL LINKS: 30'' @ [newline] @
           ''TOTAL IMAGES: '' @ str_nat (length (images d)) @ [newline]"
proof -
  have ps: "paragraphs d \<noteq> []" and ls: "links d \<noteq> []"
    using assms by auto
  have a: "length (paragraph_entries (paragraphs d)) = 20"
    using assms by (simp add: paragraph_entries_def length_enumerate1)
  have b: "length (link_entries (links d)) = 20"
    using assms by (simp add: link_entries_def length_enumerate1)
  have c: "\<forall>i<20. paragraph_entries (paragraphs d) ! i =
             str_nat (Suc i) @ ''. '' @ paragraphs d ! i @ [newline, newline]"
    using assms
    by (simp add: paragraph_entries_def length_enumerate1 nth_enumerate1 paragraph_entry_def)
  have e: "\<forall>i<20. link_entries (links d) ! i =
             str_nat (Suc i) @ ''. '' @ link_text (links d ! i) @ '' -> '' @ href (links d ! i)
               @ [newline]"
    using assms
    by (simp add: link_entries_def length_enumerate1 nth_enumerate1 link_entry_def)
  have f: "txt_dump d =
           banner @ ''URL: '' @ url d @ [newline] @ ''Title: '' @ title d @ [newline, newline] @
           abstract_block (abstract d) @ headings_block (headings d) @
           ''PARAGRAPHS:'' @ [newline] @ concat (paragraph_entries (paragraphs d)) @
           ''LINKS (first 20):'' @ [newline] @ concat (link_entries (links d)) @ [newline] @
           meta_block (meta_tags d) @
           ''FULL TEXT LENGTH: '' @ str_nat (length (full_text d)) @ '' characters'' @ [newline] @
           ''TOTAL HEADINGS: '' @ str_nat (length (headings d)) @ [newline] @
           ''TOTAL PARAGRAPHS: 25'' @ [newline] @
           ''TOTAL LINKS: 30'' @ [newline] @
           ''TOTAL IMAGES: '' @ str_nat (length (images d)) @ [newline]"
    using ps ls
    by (simp add: txt_dump_def paragraphs_block_def links_block_def stats_block_def assms
        str_nat_25 str_nat_30)
  from a b c e f show ?thesis by blast
qed

theorem truncation_25_30_witness:
  "length (paragraphs page25) = 25 \<and> length (links page25) = 30
   \<and> length (paragraph_entries (paragraphs page25)) = 20
   \<and> length (link_entries (links page25)) = 20
   \<and> paragraph_entries (paragraphs page25) ! 19 = str_nat 20 @ ''. some text'' @ [newline, newline]
   \<and> link_entries (links page25) ! 19 = str_nat 20 @ ''. home -> /'' @ [newline]"
proof -
  have h1: "length (paragraphs page25) = 25" and h2: "length (links page25) = 30"
    by (simp_all add: page25_def)
  have p: "paragraphs page25 ! 19 = ''some text''"
    and l: "links page25 ! 19 = \<lparr>link_text = ''home'', href = ''/''\<rparr>"
    by (simp_all add: page25_def)
  from truncation_25_30 [OF h1 h2] h1 h2 p l show ?thesis
    by simp
qed

section \<open>The fields of the parsed record\<close>


lemma url_parse:
  "url (parse_scraped_content c) = (case search_line ''URL: '' c of None \<Rightarrow> [] | Some g \<Rightarrow> strip g)"
  by (simp add: parse_scraped_content_def Let_def split: prod.splits)

lemma title_parse:
  "title (parse_scraped_content c) = (case search_line ''Title: '' c of None \<Rightarrow> [] | Some g \<Rightarrow> strip g)"
  by (simp add: parse_scraped_content_def Let_def split: prod.splits)

lemma abstract_parse:
  "abstract (parse_scraped_content c) =
     (case search_block (''ABSTRACT:'' @ [newline]) [[newline, newline], ''HEADINGS:''] c of
        None \<Rightarrow> Some [] | Some g \<Rightarrow> Some (strip g))"
  by (simp add: parse_scraped_content_def Let_def split: prod.splits)

lemma headings_parse:
  "headings (parse_scraped_content c) =
     (case search_block (''HEADINGS:'' @ [newline]) [[newline, newline], ''PARAGRAPHS:''] c of
        None \<Rightarrow> [] | Some b \<Rightarrow> parse_headings b)"
  by (simp add: parse_scraped_content_def Let_def split: prod.splits)

lemma paragraphs_parse:
  "paragraphs (parse_scraped_content c) =
     (case search_block (''PARAGRAPHS:'' @ [newline]) [[newline, newline], ''LINKS:'', ''META TAGS:''] c of
        None \<Rightarrow> [] | Some b \<Rightarrow> parse_paragraphs b)"
  by (simp add: parse_scraped_content_def Let_def split: prod.splits)

lemma links_parse:
  "links (parse_scraped_content c) =
     (case search_block (''LINKS (first 20):'' @ [newline]) [[newline, newline], ''META TAGS:''] c of
        None \<Rightarrow> [] | Some b \<Rightarrow> parse_links b)"
  by (simp add: parse_scraped_content_def Let_def split: prod.splits)

lemma meta_tags_parse:
  "meta_tags (parse_scraped_content c) =
     (case search_block (''META TAGS:'' @ [newline]) [[newline, newline], ''FULL TEXT''] c of
        None \<Rightarrow> [] | Some b \<Rightarrow> fst (parse_meta b c))"
  by (auto simp add: parse_scraped_content_def Let_def split: prod.splits option.splits)

lemma statistics_parse:
  "statistics (parse_scraped_content c) =
     (case search_stats
        (case search_block (''META TAGS:'' @ [newline]) [[newline, newline], ''FULL TEXT''] c of
           None \<Rightarrow> c | Some b \<Rightarrow> snd (parse_meta b c)) of
        None \<Rightarrow> [] | Some r \<Rightarrow> stats_dict r)"
  by (auto simp add: parse_scraped_content_def Let_def split: prod.splits option.splits)


section \<open>What the normalizer leaves unchanged\<close>

lemma links_preprocess:
  "links (preprocess_content now r) =
     map (\<lambda>l. \<lparr>link_text = clean_text (Some (link_text l)), href = href l\<rparr>)
       (filter (\<lambda>l. clean_text (Some (link_text l)) \<noteq> []) (links r))"
  by (simp add: preprocess_content_def Let_def List.map_filter_def clean_link_def o_def cong: map_cong)

text \<open>
  C9. The normalizer copies \<open>url\<close>, \<open>meta_tags\<close> and \<open>statistics\<close>; the links it
  keeps are the links whose cleaned text is not empty, each with its \<open>href\<close> as it was,
  and the headings it keeps carry their \<open>level\<close> as it was.
\<close>

theorem preprocess_frame:
  "url (preprocess_content now r) = url r
   \<and> meta_tags (preprocess_content now r) = meta_tags r
   \<and> statistics (preprocess_content now r) = statistics r
   \<and> map href (links (preprocess_content now r)) =
       map href (filter (\<lambda>l. clean_text (Some (link_text l)) \<noteq> []) (links r))
   \<and> map level (headings (preprocess_content now r)) =
       map level (filter (\<lambda>h. clean_text (Some (heading_text h)) \<noteq> []) (headings r))"
  apply (simp add: links_preprocess o_def)
  apply (simp add: preprocess_content_def Let_def List.map_filter_def clean_heading_def o_def cong: map_cong)
  done


section \<open>Lines of the links block\<close>

lemma split_str_nonempty: "split_str sep s \<noteq> []"
  by (induction sep s rule: split_str.induct) (auto split: list.splits)

lemma length_split_case:
  "length (case split_str sep cs of [] \<Rightarrow> [[c]] | p # ps \<Rightarrow> (c # p) # ps) = length (split_str sep cs)"
  using split_str_nonempty [of sep cs] by (cases "split_str sep cs") auto

lemma split_arrow_ge2: "sublist ''->'' s \<Longrightarrow> 2 \<le> length (split_str ''->'' s)"
proof (induction s)
  case Nil
  then show ?case by simp
next
  case (Cons c cs)
  show ?case
  proof (cases "prefix ''->'' (c # cs)")
    case True
    then show ?thesis using split_str_nonempty [of "''->''" "drop 2 (c # cs)"]
      by (cases "split_str ''->'' (drop 2 (c # cs))") (auto simp del: split_str.simps simp add: split_str.simps(2)[of _ c cs])
  next
    case False
    with Cons.prems have "sublist ''->'' cs" by (auto simp add: sublist_Cons_right)
    with Cons.IH have "2 \<le> length (split_str ''->'' cs)" by simp
    with False show ?thesis by (simp add: length_split_case del: prefix_code)
  qed
qed

lemma split_arrow_ge3:
  "sublist ''->'' t \<Longrightarrow> 3 \<le> length (split_str ''->'' (a @ ''->'' @ t))"
proof (induction a rule: length_induct)
  case (1 a)
  show ?case
  proof (cases a)
    case Nil
    with split_arrow_ge2 [OF "1.prems"] show ?thesis by simp
  next
    case (Cons x a')
    show ?thesis
    proof (cases "prefix ''->'' (a @ ''->'' @ t)")
      case True
      with Cons obtain a'' where a': "a' = CHR ''>'' # a''" and x: "x = CHR ''-''"
        by (cases a') auto
      have "sublist ''->'' (a'' @ ''->'' @ t)" by (metis sublist_appendI)
      from split_arrow_ge2 [OF this] show ?thesis
        using Cons a' x by simp
    next
      case False
      from "1.IH" Cons "1.prems" have "3 \<le> length (split_str ''->'' (a' @ ''->'' @ t))"
        by simp
      with False Cons show ?thesis
        by (simp add: length_split_case del: prefix_code)
    qed
  qed
qed

text \<open>
  C10. A line of the links block in which the token \<open>->\<close> occurs twice yields no link:
  the links parsed from the block are those of the other lines.
\<close>

theorem link_line_two_arrows_dropped:
  assumes "line = a @ ''->'' @ b @ ''->'' @ c"
  shows "link_of_line line = None
       \<and> (split_lines (strip block) = ls1 @ line # ls2 \<longrightarrow>
            parse_links block = List.map_filter link_of_line (ls1 @ ls2))"
proof -
  have "3 \<le> length (split_str ''->'' line)"
    unfolding assms by (rule split_arrow_ge3) (metis sublist_appendI)
  then have n: "link_of_line line = None"
    by (simp add: link_of_line_def Let_def)
  then show ?thesis
    by (simp add: parse_links_def List.map_filter_def)
qed


theorem link_line_two_arrows_dropped_witness:
  "link_of_line ''2. a -> b -> c'' = None
   \<and> parse_links (''1. x -> y'' @ [newline] @ ''2. a -> b -> c'' @ [newline] @ ''3. p -> q'') =
       [\<lparr>link_text = ''x'', href = ''y''\<rparr>, \<lparr>link_text = ''p'', href = ''q''\<rparr>]"
proof -
  have l: "''2. a -> b -> c'' = ''2. a '' @ ''->'' @ '' b '' @ ''->'' @ '' c''"
    by simp
  have sp: "split_lines (strip (''1. x -> y'' @ [newline] @ ''2. a -> b -> c'' @ [newline] @ ''3. p -> q''))
      = [''1. x -> y''] @ ''2. a -> b -> c'' # [''3. p -> q'']"
    by code_simp
  have r: "List.map_filter link_of_line ([''1. x -> y''] @ [''3. p -> q'']) =
      [\<lparr>link_text = ''x'', href = ''y''\<rparr>, \<lparr>link_text = ''p'', href = ''q''\<rparr>]"
    by code_simp
  from link_line_two_arrows_dropped [OF l, of _ "[''1. x -> y'']" "[''3. p -> q'']"] sp r
  show ?thesis by metis
qed

section \<open>The single-line fields\<close>



lemma followed_0:
  "followed l (x # cs) 0 \<longleftrightarrow>
     prefix l (x # cs) \<and> drop (length l) (x # cs) \<noteq> [] \<and> hd (drop (length l) (x # cs)) \<noteq> newline"
  by (auto simp add: followed_def hd_drop_conv_nth simp del: prefix_code)

lemma followed_Suc: "followed l (x # cs) (Suc k) \<longleftrightarrow> followed l cs k"
  by (simp add: followed_def)

lemma search_line_None:
  "(\<forall>k. \<not> followed l c k) \<Longrightarrow> search_line l c = None"
proof (induction c)
  case Nil
  show ?case by simp
next
  case (Cons x cs)
  from Cons.prems have "\<not> followed l (x # cs) 0" by blast
  moreover have "\<forall>k. \<not> followed l cs k"
  proof
    fix k from Cons.prems have "\<not> followed l (x # cs) (Suc k)" by blast
    then show "\<not> followed l cs k" by (simp add: followed_Suc)
  qed
  ultimately show ?case using Cons.IH by (simp add: followed_0 Let_def del: prefix_code)
qed

lemma search_line_Some:
  "followed l c k \<Longrightarrow> (\<forall>j<k. \<not> followed l c j) \<Longrightarrow>
     search_line l c = Some (takeWhile (\<lambda>x. x \<noteq> newline) (drop (k + length l) c))"
proof (induction c arbitrary: k)
  case Nil
  then show ?case by (simp add: followed_def)
next
  case (Cons x cs)
  show ?case
  proof (cases k)
    case 0
    with Cons.prems(1) have "followed l (x # cs) 0" by simp
    then show ?thesis using 0 by (simp add: followed_0 Let_def del: prefix_code)
  next
    case (Suc k')
    with Cons.prems have n0: "\<not> followed l (x # cs) 0" by blast
    from Suc Cons.prems(1) have f: "followed l cs k'" by (simp add: followed_Suc)
    have "\<forall>j<k'. \<not> followed l cs j"
    proof (intro allI impI)
      fix j assume "j < k'"
      then have "Suc j < k" using Suc by simp
      with Cons.prems(2) have "\<not> followed l (x # cs) (Suc j)" by blast
      then show "\<not> followed l cs j" by (simp add: followed_Suc)
    qed
    with Cons.IH [OF f] have "search_line l cs =
        Some (takeWhile (\<lambda>x. x \<noteq> newline) (drop (k' + length l) cs))" by blast
    moreover have "drop (k + length l) (x # cs) = drop (k' + length l) cs" using Suc by simp
    moreover have "\<not> (prefix l (x # cs) \<and> drop (length l) (x # cs) \<noteq> [] \<and>
        hd (drop (length l) (x # cs)) \<noteq> newline)"
      using n0 unfolding followed_0 .
    ultimately show ?thesis by (auto simp add: Let_def simp del: prefix_code)
  qed
qed

text \<open>
  C8, as the code has it. Each of the two patterns is the label and then one or more
  characters other than a newline, with no anchor. So the label is matched at the first
  position of the text, wherever on a line that is, at which it is followed by a
  character on the same line; an occurrence that ends its line or the text is passed
  over. The field is the rest of that line, stripped. When the text has no such
  position the field stays empty.
\<close>

theorem url_title_first_occurrence:
  "((\<forall>k. \<not> followed ''URL: '' c k) \<longrightarrow> url (parse_scraped_content c) = [])
   \<and> (followed ''URL: '' c k \<and> (\<forall>j<k. \<not> followed ''URL: '' c j) \<longrightarrow>
        url (parse_scraped_content c) =
          strip (takeWhile (\<lambda>x. x \<noteq> newline) (drop (k + length ''URL: '') c)))
   \<and> ((\<forall>k. \<not> followed ''Title: '' c k) \<longrightarrow> title (parse_scraped_content c) = [])
   \<and> (followed ''Title: '' c k \<and> (\<forall>j<k. \<not> followed ''Title: '' c j) \<longrightarrow>
        title (parse_scraped_content c) =
          strip (takeWhile (\<lambda>x. x \<noteq> newline) (drop (k + length ''Title: '') c)))"
  using search_line_None [of "''URL: ''" c] search_line_Some [of "''URL: ''" c k]
    search_line_None [of "''Title: ''" c] search_line_Some [of "''Title: ''" c k]
  unfolding url_parse title_parse by (simp del: length_Cons list.size)

theorem url_title_first_occurrence_witness:
  "url (parse_scraped_content ''URL: '') = []
   \<and> url (parse_scraped_content (''URL: '' @ [newline] @ ''x URL: later'')) = ''later''
   \<and> title (parse_scraped_content ''Title: '') = []
   \<and> title (parse_scraped_content (''Title: '' @ [newline] @ ''my Title: last '')) = ''last''"
proof -
  have a: "\<forall>k. \<not> followed ''URL: '' ''URL: '' k" by (simp add: followed_def)
  have b: "\<forall>k. \<not> followed ''Title: '' ''Title: '' k" by (simp add: followed_def)
  have c: "followed ''URL: '' (''URL: '' @ [newline] @ ''x URL: later'') 8
      \<and> (\<forall>j<8. \<not> followed ''URL: '' (''URL: '' @ [newline] @ ''x URL: later'') j)"
    by (auto simp add: followed_def eval_nat_numeral less_Suc_eq)
  have d: "followed ''Title: '' (''Title: '' @ [newline] @ ''my Title: last '') 11
      \<and> (\<forall>j<11. \<not> followed ''Title: '' (''Title: '' @ [newline] @ ''my Title: last '') j)"
    by (auto simp add: followed_def eval_nat_numeral less_Suc_eq)
  have e: "strip ''later'' = ''later''" "strip ''last '' = ''last''" by code_simp+
  from url_title_first_occurrence [of "''URL: ''" 0] a
  have 1: "url (parse_scraped_content ''URL: '') = []" by blast
  from url_title_first_occurrence [of "''Title: ''" 0] b
  have 2: "title (parse_scraped_content ''Title: '') = []" by blast
  from url_title_first_occurrence [of "''URL: '' @ [newline] @ ''x URL: later''" 8] c e
  have 3: "url (parse_scraped_content (''URL: '' @ [newline] @ ''x URL: later'')) = ''later''"
    by simp
  from url_title_first_occurrence [of "''Title: '' @ [newline] @ ''my Title: last ''" 11] d e
  have 4: "title (parse_scraped_content (''Title: '' @ [newline] @ ''my Title: last '')) = ''last''"
    by simp
  from 1 2 3 4 show ?thesis by simp
qed

text \<open>A label in the middle of a line is matched.\<close>

theorem label_mid_line_counterexample:
  "url (parse_scraped_content ''see URL: here'') = ''here''
   \<and> title (parse_scraped_content ''the Title: x'') = ''x''"
  by code_simp

section \<open>Meta tags and statistics after a round trip\<close>

text \<open>
  C3. The key \<open>og:title\<close> comes back as \<open>og\<close>, with the rest of the key in front of the
  value: the parser splits the line at its first colon.
\<close>

theorem meta_key_with_colon:
  "meta_tags og_page = [(''og:title'', ''Home'')]
   \<and> meta_tags (parse_scraped_content (txt_dump og_page)) = [(''og'', ''title: Home'')]
   \<and> map_of (meta_tags (parse_scraped_content (txt_dump og_page))) ''og:title'' = None"
  by code_simp

text \<open>The parsed statistics have no key or all five.\<close>

lemma statistics_all_or_nothing:
  "map fst (statistics (parse_scraped_content c)) = [] \<or>
   map fst (statistics (parse_scraped_content c)) =
     [''full_text_length'', ''total_headings'', ''total_paragraphs'', ''total_links'',
      ''total_images'']"
  by (auto simp: statistics_parse stats_dict_def split: option.splits)

text \<open>
  C6. The dump of \<open>og_page\<close> ends with a statistics block that the five-line pattern
  matches, and the parsed statistics are empty: the pattern is searched in \<open>content\<close>
  after the loop over the meta tags has assigned to it.
\<close>

theorem statistics_lost_after_meta_tags:
  "search_stats (txt_dump og_page) = Some (3, 0, 0, 0, 0)
   \<and> statistics (parse_scraped_content (txt_dump og_page)) = []"
  by code_simp

section \<open>A failure inside a batch\<close>

lemma process_loop_all:
  "process_loop read clock (pc, fc, saved) ps =
     (pc + length (filter (\<lambda>p. read_txt_file read p \<noteq> []) ps),
      fc + length (filter (\<lambda>p. read_txt_file read p = []) ps),
      saved @ map (\<lambda>p. (p, preprocess_content (clock p) (parse_scraped_content (read_txt_file read p))))
                (filter (\<lambda>p. read_txt_file read p \<noteq> []) ps))"
  by (induction ps arbitrary: pc fc saved) (simp_all add: Let_def)

lemma process_all_files_all:
  "process_all_files read clock ps =
     (length (filter (\<lambda>p. read_txt_file read p \<noteq> []) ps),
      length (filter (\<lambda>p. read_txt_file read p = []) ps),
      map (\<lambda>p. (p, preprocess_content (clock p) (parse_scraped_content (read_txt_file read p))))
        (filter (\<lambda>p. read_txt_file read p \<noteq> []) ps))"
  by (simp add: process_all_files_def process_loop_all)

text \<open>
  C7. In \<open>simple_web_scraper.py\<close> the exception raised for the first URL leaves
  \<open>scrape_multiple_websites\<close>, and nothing is written for the second URL. The loop of
  \<open>simple_web_scraper_headless.py\<close> counts the failure and goes on.
\<close>

theorem batch_aborts_on_failure:
  "scrape_multiple_websites fetch_good_only (\<lambda>u. u) [''http://bad.example'', ''http://good.example''] []
     = (Inl WebDriverException, [])
   \<and> scrape_loop_headless fetch_good_only (\<lambda>u. u) ([], 0, 0)
       [''http://bad.example'', ''http://good.example''] []
     = (([page25], 1, 1), write_files (\<lambda>u. u) ''http://good.example'' page25 [])"
  by (simp add: scrape_multiple_websites_def scrape_website_def scrape_website_headless_def
      fetch_good_only_def)

section \<open>Normalizing twice\<close>


lemma isspace_space: "isspace CHR '' ''"
  by (simp add: isspace_def)

lemma collapsed_collapse_ws: "collapsed (collapse_ws s)"
proof (induction s rule: collapse_ws.induct)
  case 1
  then show ?case by simp
next
  case (2 c cs)
  show ?case
  proof (cases "isspace c")
    case True
    show ?thesis
    proof (cases "dropWhile isspace cs")
      case Nil
      with True show ?thesis by (simp add: isspace_space del: dropWhile_eq_Nil_conv)
    next
      case (Cons d ds)
      then have "\<not> isspace d" by (metis hd_dropWhile list.sel(1) list.distinct(1))
      with True Cons 2 show ?thesis by simp
    qed
  next
    case False
    with 2 show ?thesis by (cases cs) auto
  qed
qed

lemma collapse_ws_collapsed: "collapsed s \<Longrightarrow> collapse_ws s = s"
  by (induction s rule: collapsed.induct) auto

lemma collapsed_append: "collapsed (a @ b) \<Longrightarrow> collapsed a \<and> collapsed b"
proof (induction a rule: collapsed.induct)
  case 1
  then show ?case by simp
next
  case (2 c)
  then show ?case by (cases b) auto
next
  case (3 c d cs)
  then show ?case by auto
qed

lemma strip_decomp: "\<exists>a b. s = a @ strip s @ b"
proof -
  let ?t = "dropWhile isspace s"
  have "s = takeWhile isspace s @ ?t" by simp
  moreover have "rev ?t = takeWhile isspace (rev ?t) @ dropWhile isspace (rev ?t)" by simp
  then have "?t = rev (dropWhile isspace (rev ?t)) @ rev (takeWhile isspace (rev ?t))"
    by (metis rev_append rev_rev_ident)
  ultimately have "s = takeWhile isspace s @ strip s @ rev (takeWhile isspace (rev ?t))"
    by (simp add: strip_def)
  then show ?thesis by blast
qed

lemma collapsed_strip: "collapsed s \<Longrightarrow> collapsed (strip s)"
  using strip_decomp [of s] collapsed_append by metis

lemma set_strip: "set (strip s) \<subseteq> set s"
  using strip_decomp [of s] by (metis Un_iff set_append subsetI)

lemma set_collapse_ws: "set (collapse_ws s) \<subseteq> insert CHR '' '' (set s)"
proof (induction s rule: collapse_ws.induct)
  case 1
  then show ?case by simp
next
  case (2 c cs)
  have "set (dropWhile isspace cs) \<subseteq> set cs" by (simp add: set_dropWhileD subsetI)
  with 2 show ?case by auto
qed

lemma dropWhile_hd_id: "xs \<noteq> [] \<Longrightarrow> \<not> P (hd xs) \<Longrightarrow> dropWhile P xs = xs"
  by (cases xs) auto

lemma strip_id:
  assumes "s = [] \<or> (\<not> isspace (hd s) \<and> \<not> isspace (last s))"
  shows "strip s = s"
proof (cases s)
  case Nil
  then show ?thesis by (simp add: strip_def)
next
  case (Cons x xs)
  with assms have h: "\<not> isspace (hd s)" and l: "\<not> isspace (last s)" by auto
  from h Cons have a: "dropWhile isspace s = s" by simp
  have "rev s \<noteq> []" using Cons by simp
  moreover have "hd (rev s) = last s" using Cons by (simp add: hd_rev)
  ultimately have "dropWhile isspace (rev s) = rev s"
    using l by (intro dropWhile_hd_id) simp_all
  with a show ?thesis by (simp add: strip_def)
qed

lemma last_dropWhile_ne: "dropWhile P xs \<noteq> [] \<Longrightarrow> last (dropWhile P xs) = last xs"
  by (induction xs) (auto split: if_splits)

lemma strip_ends:
  assumes "strip s \<noteq> []"
  shows "\<not> isspace (hd (strip s)) \<and> \<not> isspace (last (strip s))"
proof -
  let ?t = "dropWhile isspace s"
  let ?u = "dropWhile isspace (rev ?t)"
  from assms have u: "?u \<noteq> []" by (simp add: strip_def)
  then have t: "?t \<noteq> []" by (metis dropWhile.simps(1) rev.simps(1))
  have "last (strip s) = hd ?u" using u by (simp add: strip_def last_rev)
  moreover have "\<not> isspace (hd ?u)" using u by (rule hd_dropWhile)
  moreover have "hd (strip s) = last ?u" using u by (simp add: strip_def hd_rev)
  moreover have "last ?u = last (rev ?t)" using u by (rule last_dropWhile_ne)
  moreover have "last (rev ?t) = hd ?t" using t by (simp add: last_rev)
  moreover have "\<not> isspace (hd ?t)" using t by (rule hd_dropWhile)
  ultimately show ?thesis by simp
qed

lemma strip_strip: "strip (strip s) = strip s"
  using strip_ends [of s] by (intro strip_id) blast

lemma allowed_space: "allowed CHR '' ''"
  by (simp add: allowed_def isspace_space)

lemma clean_fixed: "clean (clean s) = clean s"
proof -
  let ?u = "filter allowed (collapse_ws s)"
  let ?r = "strip (collapse_ws ?u)"
  have c: "collapsed ?r" by (simp add: collapsed_strip collapsed_collapse_ws)
  then have 1: "collapse_ws ?r = ?r" by (rule collapse_ws_collapsed)
  have "set ?r \<subseteq> insert CHR '' '' (set ?u)"
    using set_strip set_collapse_ws by blast
  then have "\<forall>x\<in>set ?r. allowed x" using allowed_space by auto
  then have 2: "filter allowed ?r = ?r" by simp
  show ?thesis unfolding clean_def by (simp only: 1 2 strip_strip)
qed

lemma clean_text_Some: "clean_text (Some s) = clean s"
  by (cases s) (simp_all add: clean_text_def truthy_def clean_def strip_def)

lemma clean_text_idem: "clean_text (Some (clean_text t)) = clean_text t"
proof (cases "truthy t")
  case True
  then obtain s where "t = Some s" by (cases t) (auto simp: truthy_def)
  then show ?thesis by (simp add: clean_text_Some clean_fixed)
next
  case False
  then show ?thesis by (simp add: clean_text_def truthy_def)
qed


lemma clean_paragraphs_inv:
  "distinct acc \<Longrightarrow> \<forall>p\<in>set acc. kept p \<Longrightarrow>
     distinct (clean_paragraphs acc ps) \<and> (\<forall>p\<in>set (clean_paragraphs acc ps). kept p)"
proof (induction ps arbitrary: acc)
  case Nil
  then show ?case by simp
next
  case (Cons para ps)
  let ?c = "clean_text (Some para)"
  show ?case
  proof (cases "?c \<noteq> [] \<and> length ?c > 10 \<and> ?c \<notin> set acc")
    case True
    then have "kept ?c" by (simp add: kept_def clean_text_idem)
    with Cons.prems True have "distinct (acc @ [?c])" and "\<forall>p\<in>set (acc @ [?c]). kept p"
      by auto
    from Cons.IH [OF this] True show ?thesis by (simp add: Let_def)
  next
    case False
    with Cons.IH [OF Cons.prems] show ?thesis by (auto simp add: Let_def)
  qed
qed

lemma clean_paragraphs_kept:
  "distinct (acc @ ps) \<Longrightarrow> \<forall>p\<in>set ps. kept p \<Longrightarrow> clean_paragraphs acc ps = acc @ ps"
proof (induction ps arbitrary: acc)
  case Nil
  then show ?case by simp
next
  case (Cons para ps)
  from Cons.prems have k: "clean_text (Some para) = para" "10 < length para" "para \<notin> set acc"
    by (auto simp: kept_def)
  from Cons.prems have "distinct ((acc @ [para]) @ ps)" and "\<forall>p\<in>set ps. kept p" by auto
  from Cons.IH [OF this] k show ?case by (auto simp add: Let_def)
qed

lemma clean_paragraphs_idem:
  "clean_paragraphs [] (clean_paragraphs [] ps) = clean_paragraphs [] ps"
  using clean_paragraphs_inv [of "[]" ps] by (intro clean_paragraphs_kept [of "[]", simplified]) auto

lemma map_filter_idem:
  assumes "\<And>x y. f x = Some y \<Longrightarrow> f y = Some y"
  shows "List.map_filter f (List.map_filter f xs) = List.map_filter f xs"
  using assms by (induction xs) (auto simp: List.map_filter_simps split: option.splits)

lemma clean_heading_idem: "clean_heading h = Some h' \<Longrightarrow> clean_heading h' = Some h'"
  by (auto simp: clean_heading_def Let_def clean_text_idem split: if_splits)

lemma clean_link_idem: "clean_link l = Some l' \<Longrightarrow> clean_link l' = Some l'"
  by (auto simp: clean_link_def Let_def clean_text_idem split: if_splits)

text \<open>
  C4, as the code has it. Normalizing a normalized record changes nothing but the
  time stamp, which is the reading of the clock at the second call.
\<close>

theorem normalizer_idempotent_up_to_timestamp:
  "preprocess_content now2 (preprocess_content now1 r) =
     (preprocess_content now1 r)
       \<lparr>processed_stats := (processed_stats (preprocess_content now1 r))\<lparr>processing_timestamp := now2\<rparr>\<rparr>"
  by (simp add: preprocess_content_def Let_def clean_paragraphs_idem clean_text_idem
      map_filter_idem [of clean_heading, OF clean_heading_idem]
      map_filter_idem [of clean_link, OF clean_link_idem])


text \<open>With two readings of the clock the two results differ.\<close>

theorem normalizer_timestamp_counterexample:
  "preprocess_content ''2026-01-01 00:00:01'' (preprocess_content ''2026-01-01 00:00:00'' parsed0)
     \<noteq> preprocess_content ''2026-01-01 00:00:00'' parsed0"
proof
  assume e: "preprocess_content ''2026-01-01 00:00:01''
      (preprocess_content ''2026-01-01 00:00:00'' parsed0)
    = preprocess_content ''2026-01-01 00:00:00'' parsed0"
  have t: "processing_timestamp (processed_stats (preprocess_content now r)) = now"
    for now and r :: processed_data
    by (simp add: preprocess_content_def Let_def)
  have t0: "processing_timestamp (processed_stats (preprocess_content now r)) = now"
    for now and r :: parsed_data
    by (simp add: preprocess_content_def Let_def)
  from e t [of "''2026-01-01 00:00:01''" "preprocess_content ''2026-01-01 00:00:00'' parsed0"]
    t0 [of "''2026-01-01 00:00:00''" parsed0]
  show False by simp
qed

section \<open>Where a block ends\<close>


lemma prefix_long:
  assumes "prefix l (p @ q)" and "length l \<le> length p"
  shows "prefix l p"
  using assms by (metis prefix_length_prefix prefixI)

lemma find_after_first:
  assumes "\<not> sublist l (pre @ butlast l)" and "l \<noteq> []"
  shows "find_after l (pre @ l @ r) = Some r"
  using assms(1)
proof (induction pre)
  case Nil
  obtain c cs where l: "l @ r = c # cs" using assms(2) by (cases l) auto
  have "prefix l (c # cs)" using l by (metis prefixI)
  moreover have "drop (length l) (c # cs) = r" using l by (metis append_eq_conv_conj)
  ultimately show ?case using l by (simp del: prefix_code)
next
  case (Cons x pre)
  have np: "\<not> prefix l (x # pre @ l @ r)"
  proof
    assume p: "prefix l (x # pre @ l @ r)"
    have "x # pre @ l @ r = ((x # pre) @ butlast l) @ ([last l] @ r)"
      using assms(2) by simp
    moreover have "length l \<le> length ((x # pre) @ butlast l)" by simp
    ultimately have "prefix l ((x # pre) @ butlast l)"
      using p prefix_long by metis
    then show False using Cons.prems by auto
  qed
  have "\<not> sublist l (pre @ butlast l)"
    using Cons.prems by (auto simp: sublist_Cons_right)
  with Cons.IH np show ?case by (simp del: prefix_code)
qed

lemma lazy_until_shortest:
  assumes "stop r" and "\<forall>k<length b. \<not> stop (drop k (b @ r))"
  shows "lazy_until stop (b @ r) = b"
  using assms(2)
proof (induction b)
  case Nil
  with assms(1) show ?case by (cases r) auto
next
  case (Cons c b)
  from Cons.prems have "\<not> stop (c # b @ r)" by (auto dest: spec [of _ 0])
  moreover have "\<forall>k<length b. \<not> stop (drop k (b @ r))"
  proof (intro allI impI)
    fix k assume "k < length b"
    then have "Suc k < length (c # b)" by simp
    with Cons.prems have "\<not> stop (drop (Suc k) ((c # b) @ r))" by blast
    then show "\<not> stop (drop k (b @ r))" by simp
  qed
  ultimately show ?case using Cons.IH by simp
qed

lemma search_block_first:
  assumes "\<not> sublist l (pre @ butlast l)" and "l \<noteq> []"
    and "(\<exists>t\<in>set ts. prefix t rest) \<or> rest = [] \<or> rest = [newline]"
    and "\<forall>k<length body. (\<forall>t\<in>set ts. \<not> prefix t (drop k (body @ rest)))
            \<and> drop k (body @ rest) \<noteq> [newline]"
  shows "search_block l ts (pre @ l @ body @ rest) = Some body"
proof -
  have f: "find_after l (pre @ l @ body @ rest) = Some (body @ rest)"
    using assms(1,2) by (rule find_after_first)
  have s: "lookahead ts rest"
    using assms(3) by (simp add: lookahead_def list_ex_iff at_end_def)
  have n: "\<forall>k<length body. \<not> lookahead ts (drop k (body @ rest))"
  proof (intro allI impI)
    fix k assume k: "k < length body"
    then have "drop k (body @ rest) \<noteq> []" by simp
    with assms(4) k show "\<not> lookahead ts (drop k (body @ rest))"
      by (simp add: lookahead_def list_ex_iff at_end_def)
  qed
  have "lazy_until (lookahead ts) (body @ rest) = body"
    using s n by (rule lazy_until_shortest)
  with f show ?thesis by (simp add: search_block_def)
qed


text \<open>
  C2, as the code has it. Every block pattern lists the blank line among its
  terminators, next to one or two labels and the end of the text. Let the label first
  occur after \<open>pre\<close>, and let \<open>rest\<close> be the first place after the label where a blank
  line or a terminator label of the block begins, or where the text ends or only its last
  newline remains. Then the block is the text \<open>body\<close> between the label and \<open>rest\<close>,
  whatever follows: after a blank line, further lines of the same section are not part
  of the parsed block. For the paragraphs block, whose entries the writer separates by
  blank lines, this is stated only when the block does not end at a blank line.
\<close>

theorem block_ends_at_first_terminator:
  assumes "c = pre @ l @ body @ rest"
    and "\<not> sublist l (pre @ butlast l)"
    and "(\<exists>t\<in>set ts. prefix t rest) \<or> rest = [] \<or> rest = [newline]"
    and "\<forall>k<length body. (\<forall>t\<in>set ts. \<not> prefix t (drop k (body @ rest)))
            \<and> drop k (body @ rest) \<noteq> [newline]"
  shows "(l = ''ABSTRACT:'' @ [newline] \<and> ts = [[newline, newline], ''HEADINGS:''] \<longrightarrow>
            abstract (parse_scraped_content c) = Some (strip body))
       \<and> (l = ''HEADINGS:'' @ [newline] \<and> ts = [[newline, newline], ''PARAGRAPHS:''] \<longrightarrow>
            headings (parse_scraped_content c) = parse_headings body)
       \<and> (l = ''LINKS (first 20):'' @ [newline] \<and> ts = [[newline, newline], ''META TAGS:''] \<longrightarrow>
            links (parse_scraped_content c) = parse_links body)
       \<and> (l = ''META TAGS:'' @ [newline] \<and> ts = [[newline, newline], ''FULL TEXT''] \<longrightarrow>
            meta_tags (parse_scraped_content c) = fst (parse_meta body c))
       \<and> (l = ''PARAGRAPHS:'' @ [newline] \<and> ts = [[newline, newline], ''LINKS:'', ''META TAGS:'']
            \<and> \<not> prefix [newline, newline] rest \<longrightarrow>
            paragraphs (parse_scraped_content c) = parse_paragraphs body)"
proof -
  have "l \<noteq> [] \<Longrightarrow> search_block l ts c = Some body"
    unfolding assms(1) using assms(2) _ assms(3,4) by (rule search_block_first)
  then show ?thesis
    by (auto simp add: abstract_parse headings_parse paragraphs_parse links_parse meta_tags_parse)
qed

theorem block_ends_at_first_terminator_witness:
  "headings (parse_scraped_content two_heading_dump) = parse_headings ''H1: a''
   \<and> headings (parse_scraped_content label_ended_dump) = parse_headings (''H1: a'' @ [newline])
   \<and> paragraphs (parse_scraped_content label_ended_dump) = parse_paragraphs (''1. p'' @ [newline])
   \<and> meta_tags (parse_scraped_content label_ended_dump) = fst (parse_meta ''a: b'' label_ended_dump)"
proof -
  have c1: "two_heading_dump =
      [] @ (''HEADINGS:'' @ [newline]) @ ''H1: a'' @ ([newline, newline] @ ''H2: b'' @ [newline])"
    by (simp add: two_heading_dump_def)
  have f1: "\<not> sublist (''HEADINGS:'' @ [newline]) ([] @ butlast (''HEADINGS:'' @ [newline]))"
    by code_simp
  have s1: "(\<exists>t\<in>set [[newline, newline], ''PARAGRAPHS:''].
        prefix t ([newline, newline] @ ''H2: b'' @ [newline]))
      \<or> [newline, newline] @ ''H2: b'' @ [newline] = []
      \<or> [newline, newline] @ ''H2: b'' @ [newline] = [newline]"
    by simp
  have n1: "\<forall>k<length ''H1: a''.
      (\<forall>t\<in>set [[newline, newline], ''PARAGRAPHS:''].
         \<not> prefix t (drop k (''H1: a'' @ ([newline, newline] @ ''H2: b'' @ [newline]))))
      \<and> drop k (''H1: a'' @ ([newline, newline] @ ''H2: b'' @ [newline])) \<noteq> [newline]"
    by (auto simp add: eval_nat_numeral less_Suc_eq)
  have c2: "label_ended_dump =
      [] @ (''HEADINGS:'' @ [newline]) @ (''H1: a'' @ [newline]) @
      (''PARAGRAPHS:'' @ [newline] @ ''1. p'' @ [newline] @ ''META TAGS:'' @ [newline] @ ''a: b'')"
    by (simp add: label_ended_dump_def)
  have s2: "(\<exists>t\<in>set [[newline, newline], ''PARAGRAPHS:''].
        prefix t (''PARAGRAPHS:'' @ [newline] @ ''1. p'' @ [newline] @ ''META TAGS:'' @ [newline] @ ''a: b''))
      \<or> ''PARAGRAPHS:'' @ [newline] @ ''1. p'' @ [newline] @ ''META TAGS:'' @ [newline] @ ''a: b'' = []
      \<or> ''PARAGRAPHS:'' @ [newline] @ ''1. p'' @ [newline] @ ''META TAGS:'' @ [newline] @ ''a: b'' = [newline]"
    by simp
  have n2: "\<forall>k<length (''H1: a'' @ [newline]).
      (\<forall>t\<in>set [[newline, newline], ''PARAGRAPHS:''].
         \<not> prefix t (drop k ((''H1: a'' @ [newline]) @
           (''PARAGRAPHS:'' @ [newline] @ ''1. p'' @ [newline] @ ''META TAGS:'' @ [newline] @ ''a: b''))))
      \<and> drop k ((''H1: a'' @ [newline]) @
           (''PARAGRAPHS:'' @ [newline] @ ''1. p'' @ [newline] @ ''META TAGS:'' @ [newline] @ ''a: b''))
          \<noteq> [newline]"
    by (auto simp add: eval_nat_numeral less_Suc_eq)
  have c3: "label_ended_dump =
      (''HEADINGS:'' @ [newline] @ ''H1: a'' @ [newline]) @ (''PARAGRAPHS:'' @ [newline]) @
      (''1. p'' @ [newline]) @ (''META TAGS:'' @ [newline] @ ''a: b'')"
    by (simp add: label_ended_dump_def)
  have f3: "\<not> sublist (''PARAGRAPHS:'' @ [newline])
      ((''HEADINGS:'' @ [newline] @ ''H1: a'' @ [newline]) @ butlast (''PARAGRAPHS:'' @ [newline]))"
    by code_simp
  have s3: "(\<exists>t\<in>set [[newline, newline], ''LINKS:'', ''META TAGS:''].
        prefix t (''META TAGS:'' @ [newline] @ ''a: b''))
      \<or> ''META TAGS:'' @ [newline] @ ''a: b'' = []
      \<or> ''META TAGS:'' @ [newline] @ ''a: b'' = [newline]"
    by simp
  have n3: "\<forall>k<length (''1. p'' @ [newline]).
      (\<forall>t\<in>set [[newline, newline], ''LINKS:'', ''META TAGS:''].
         \<not> prefix t (drop k ((''1. p'' @ [newline]) @ (''META TAGS:'' @ [newline] @ ''a: b''))))
      \<and> drop k ((''1. p'' @ [newline]) @ (''META TAGS:'' @ [newline] @ ''a: b'')) \<noteq> [newline]"
    by (auto simp add: eval_nat_numeral less_Suc_eq)
  have c4: "label_ended_dump =
      (''HEADINGS:'' @ [newline] @ ''H1: a'' @ [newline] @ ''PARAGRAPHS:'' @ [newline] @
       ''1. p'' @ [newline]) @ (''META TAGS:'' @ [newline]) @ ''a: b'' @ []"
    by (simp add: label_ended_dump_def)
  have f4: "\<not> sublist (''META TAGS:'' @ [newline])
      ((''HEADINGS:'' @ [newline] @ ''H1: a'' @ [newline] @ ''PARAGRAPHS:'' @ [newline] @
       ''1. p'' @ [newline]) @ butlast (''META TAGS:'' @ [newline]))"
    by code_simp
  have s4: "(\<exists>t\<in>set [[newline, newline], ''FULL TEXT'']. prefix t []) \<or> [] = [] \<or> [] = [newline]"
    by simp
  have n4: "\<forall>k<length ''a: b''.
      (\<forall>t\<in>set [[newline, newline], ''FULL TEXT'']. \<not> prefix t (drop k (''a: b'' @ [])))
      \<and> drop k (''a: b'' @ []) \<noteq> [newline]"
    by (auto simp add: eval_nat_numeral less_Suc_eq)
  from block_ends_at_first_terminator [OF c1 f1 s1 n1]
  have 1: "headings (parse_scraped_content two_heading_dump) = parse_headings ''H1: a''" by simp
  from block_ends_at_first_terminator [OF c2 f1 s2 n2]
  have 2: "headings (parse_scraped_content label_ended_dump) = parse_headings (''H1: a'' @ [newline])"
    by simp
  from block_ends_at_first_terminator [OF c3 f3 s3 n3]
  have 3: "paragraphs (parse_scraped_content label_ended_dump) = parse_paragraphs (''1. p'' @ [newline])"
    by simp
  from block_ends_at_first_terminator [OF c4 f4 s4 n4]
  have 4: "meta_tags (parse_scraped_content label_ended_dump) = fst (parse_meta ''a: b'' label_ended_dump)"
    by simp
  from 1 2 3 4 show ?thesis by simp
qed

text \<open>The heading line after the blank line is lost, though no label precedes it.\<close>

theorem blank_line_counterexample:
  "headings (parse_scraped_content two_heading_dump) = [\<lparr>level = ''H1'', heading_text = ''a''\<rparr>]"
  by code_simp

section \<open>The round trip through the text dump\<close>

subsection \<open>Occurrences of a string in a text built from parts\<close>






text \<open>A separator that the needle does not contain.\<close>

lemma sublist_sep:
  assumes "c \<notin> set n"
  shows "sublist n (u @ c # v) \<longleftrightarrow> sublist n u \<or> sublist n v"
proof
  assume "sublist n (u @ c # v)"
  then consider "sublist n u" | "sublist n (c # v)"
    | n1 n2 where "n = n1 @ n2" "n2 \<noteq> []" "suffix n1 u" "prefix n2 (c # v)"
    by (auto simp: sublist_append) (metis append_Nil2 suffix_imp_sublist)
  then show "sublist n u \<or> sublist n v"
  proof cases
    case 2
    then show ?thesis using assms by (auto simp: sublist_Cons_right prefix_Cons)
  next
    case 3
    then have "c \<in> set n" by (cases n2) (auto simp: prefix_Cons)
    with assms show ?thesis by simp
  qed auto
next
  assume "sublist n u \<or> sublist n v"
  then show "sublist n (u @ c # v)"
    by (metis sublist_append sublist_Cons_right)
qed

lemma sublist_sep_Cons: "c \<notin> set n \<Longrightarrow> n \<noteq> [] \<Longrightarrow> sublist n (c # v) \<longleftrightarrow> sublist n v"
  using sublist_sep [of c n "[]" v] by simp





subsection \<open>Numbers in the dump\<close>













subsection \<open>The lazy group over the lines of a block\<close>






subsection \<open>Stripping and splitting into lines\<close>

lemma strip_rstrip_def: "strip s = rstrip (dropWhile isspace s)"
  by (simp add: strip_def rstrip_def)

lemma rstrip_Nil [simp]: "rstrip [] = []"
  by (simp add: rstrip_def)

lemma rstrip_nonspace: "\<not> isspace c \<Longrightarrow> rstrip (a @ c # b) = a @ c # rstrip b"
  by (simp add: rstrip_def dropWhile_append)

lemma rstrip_Cons_nonspace: "\<not> isspace c \<Longrightarrow> rstrip (c # b) = c # rstrip b"
  using rstrip_nonspace [of c "[]" b] by simp

lemma strip_Cons_nonspace: "\<not> isspace c \<Longrightarrow> strip (c # s) = c # rstrip s"
  by (simp add: strip_rstrip_def rstrip_Cons_nonspace)


lemma strip_inner_nonspace:
  "\<not> isspace x \<Longrightarrow> \<not> isspace c \<Longrightarrow> strip (x # a @ c # b) = x # a @ c # rstrip b"
  by (simp add: strip_Cons_nonspace rstrip_nonspace)

lemma dropWhile_rstrip: "dropWhile isspace (rstrip s) = strip s"
proof (cases "dropWhile isspace s")
  case Nil
  then have "\<forall>x\<in>set s. isspace x" by (simp add: dropWhile_eq_Nil_conv)
  then have "rstrip s = []" by (simp add: rstrip_def)
  with Nil show ?thesis by (simp add: strip_rstrip_def del: dropWhile_eq_Nil_conv)
next
  case (Cons x w)
  then have x: "\<not> isspace x" by (metis hd_dropWhile list.sel(1) list.distinct(1))
  have "s = takeWhile isspace s @ x # w" using Cons by (metis takeWhile_dropWhile_id)
  then have "rstrip s = takeWhile isspace s @ x # rstrip w"
    using rstrip_nonspace [OF x, of "takeWhile isspace s" w] by simp
  then have "dropWhile isspace (rstrip s) = x # rstrip w"
    using x by (auto simp add: dropWhile_append dest: set_takeWhileD)
  with Cons x show ?thesis by (simp add: strip_rstrip_def rstrip_Cons_nonspace)
qed

lemma rstrip_rstrip: "rstrip (rstrip s) = rstrip s"
  by (simp add: rstrip_def dropWhile_idem)

lemma strip_rstrip: "strip (rstrip s) = strip s"
proof -
  have "strip (rstrip s) = rstrip (dropWhile isspace (rstrip s))" by (simp add: strip_rstrip_def)
  also have "\<dots> = rstrip (strip s)" by (simp add: dropWhile_rstrip)
  also have "\<dots> = strip s" by (simp add: strip_rstrip_def rstrip_rstrip)
  finally show ?thesis .
qed







subsection \<open>Lines of the headings block\<close>




lemma isspace_simps [simp]:
  "isspace CHR '' ''" "\<not> isspace CHR '':''" "\<not> isspace CHR ''.''" "\<not> isspace CHR ''>''"
  "\<not> isspace CHR ''H''" "\<not> isspace CHR ''-''" "isspace newline"
  by (simp_all add: isspace_def)










subsection \<open>Lines of the links block\<close>









subsection \<open>Lines that do not contain a label\<close>










subsection \<open>The captured blocks\<close>










subsection \<open>The parts of the dump contain no label line\<close>


























subsection \<open>The dump as a whole\<close>








subsection \<open>The fields that come back\<close>








subsection \<open>The statistics block\<close>







subsection \<open>The dump as read back from its file\<close>










text \<open>A carriage return inside the title comes back as a line break and cuts the title.\<close>

lemma carriage_return_cuts_title:
  "\<not> roundtrip_ok cr_page
   \<and> title (parse_scraped_content (read_text (write_text [newline] (txt_dump cr_page)))) = ''T''"
  by code_simp




end
